theory Spec2Isabelle
  imports Main "HOL-Library.Sublist"
begin

section \<open>The model asset server: \<open>GET /models/:file\<close> of \<open>backend/server.js\<close>\<close>

text \<open>
  The handler answers a request for a named model file: it checks that the file exists,
  picks a pre-compressed sibling when the client accepts it, sets the content and caching
  headers, and streams either the whole file or the byte range the \<open>Range\<close> header names.

  The embedding follows the handler line by line. Strings are byte strings (\<open>string\<close>;
  Node hands header values over as Latin-1 code units), the file system is a snapshot
  mapping a path to a file, and the response is the status, the headers the handler sets
  and the bytes it sends. What the surrounding middleware adds to a response (CORS headers,
  the \<open>compression\<close> filter, the headers \<open>res.send\<close> computes for a text body) is
  outside this handler and outside the model.

  Byte offsets are mathematical integers. The runtime computes them as doubles, which agree
  with the integers up to \<open>2 ^ 53 - 1\<close>, the largest safe integer; a file has at most that
  many bytes, and a bound beyond it makes \<open>createReadStream\<close> throw. A digit string
  denoting a larger value is parsed to that value, where the runtime rounds it to the
  nearest double.
\<close>

subsection \<open>Strings: \<open>includes\<close>, \<open>replace\<close>, \<open>split\<close>, \<open>parseInt\<close>, number rendering\<close>

text \<open>\<open>s.includes(t)\<close>: \<open>t\<close> occurs in \<open>s\<close> as a contiguous substring.\<close>

fun str_includes :: "string \<Rightarrow> string \<Rightarrow> bool" where
  "str_includes [] t = (t = [])"
| "str_includes (c # cs) t = (prefix t (c # cs) \<or> str_includes cs t)"

text \<open>
  \<open>s.replace(/pat/, rep)\<close> for a pattern of literal characters and no \<open>g\<close> flag: the
  leftmost occurrence of \<open>pat\<close> is replaced, the rest of \<open>s\<close> is kept.
\<close>

fun replace :: "string \<Rightarrow> string \<Rightarrow> string \<Rightarrow> string" where
  "replace pat rep [] = (if pat = [] then rep else [])"
| "replace pat rep (c # cs) =
     (if prefix pat (c # cs) then rep @ drop (length pat) (c # cs)
      else c # replace pat rep cs)"

text \<open>
  \<open>s.split(sep)\<close> for a one-character separator: the pieces between the separators, in
  order; a string without the separator (also the empty one) gives one piece.
\<close>

fun split :: "char \<Rightarrow> string \<Rightarrow> string list" where
  "split sep [] = [[]]"
| "split sep (c # cs) =
     (if c = sep then [] # split sep cs
      else (case split sep cs of
              [] \<Rightarrow> [[c]]
            | p # ps \<Rightarrow> (c # p) # ps))"

text \<open>A JavaScript number as the handler meets it: \<open>NaN\<close> or an integer.\<close>

datatype number = NaN | Num int

text \<open>
  The white space \<open>parseInt\<close> skips, among the code units below 256: tab, line feed,
  vertical tab, form feed, carriage return, space and the no-break space.
\<close>

definition is_space :: "char \<Rightarrow> bool" where
  "is_space c = (of_char c \<in> {9, 10, 11, 12, 13, 32, 160 :: nat})"

definition is_digit :: "char \<Rightarrow> bool" where
  "is_digit c = (48 \<le> (of_char c :: nat) \<and> (of_char c :: nat) \<le> 57)"

definition digit_val :: "char \<Rightarrow> nat" where
  "digit_val c = of_char c - 48"

text \<open>The value of a string of decimal digits, most significant digit first.\<close>

definition digits_val :: "string \<Rightarrow> nat" where
  "digits_val ds = foldl (\<lambda>acc c. 10 * acc + digit_val c) 0 ds"

text \<open>
  \<open>parseInt(s, 10)\<close>: skip leading white space, read an optional sign, then the longest
  run of decimal digits; no digit gives \<open>NaN\<close>, and whatever follows the digits is ignored.
\<close>

definition parseInt :: "string \<Rightarrow> number" where
  "parseInt s =
     (let t = dropWhile is_space s;
          sign = (case t of c # _ \<Rightarrow> if c = CHR ''-'' then (-1 :: int) else 1 | [] \<Rightarrow> 1);
          u = (case t of c # r \<Rightarrow> if c = CHR ''-'' \<or> c = CHR ''+'' then r else t | [] \<Rightarrow> t);
          ds = takeWhile is_digit u
      in if ds = [] then NaN else Num (sign * int (digits_val ds)))"

text \<open>The decimal rendering of a number in a template literal, \<open>`${n}`\<close>.\<close>

definition digit_char :: "nat \<Rightarrow> char" where
  "digit_char d = ''0123456789'' ! d"

fun digits_of :: "nat \<Rightarrow> string" where
  "digits_of n =
     (if n < 10 then [digit_char n]
      else digits_of (n div 10) @ [digit_char (n mod 10)])"

declare digits_of.simps [simp del]

definition String_int :: "int \<Rightarrow> string" where
  "String_int i = (if i < 0 then CHR ''-'' # digits_of (nat (- i)) else digits_of (nat i))"

fun String_num :: "number \<Rightarrow> string" where
  "String_num NaN = ''NaN''"
| "String_num (Num i) = String_int i"

subsection \<open>The file system\<close>

text \<open>
  The models directory as one request sees it: the regular files in it, each with its
  bytes and its modification time, by path. Directories, and reads that fail after a file
  has been found, are not part of the snapshot.
\<close>

text \<open>\<open>Number.MAX_SAFE_INTEGER\<close>, \<open>2 ^ 53 - 1\<close>.\<close>

definition MAX_SAFE_INTEGER :: int where
  "MAX_SAFE_INTEGER = 9007199254740991"

text \<open>The bytes of a file: its size, which \<open>statSync\<close> reports as a number, is a safe integer.\<close>

typedef file_bytes = "{bs :: string. length bs \<le> 9007199254740991}"
  by (rule exI [of _ "[]"]) simp

record file_entry =
  bytes :: file_bytes
  mtimeMs :: int

definition content :: "file_entry \<Rightarrow> string" where
  "content f = Rep_file_bytes (bytes f)"

definition mk_file :: "string \<Rightarrow> int \<Rightarrow> file_entry" where
  "mk_file bs t = \<lparr>bytes = Abs_file_bytes bs, mtimeMs = t\<rparr>"

type_synonym filesystem = "string \<rightharpoonup> file_entry"

record stats =
  size_st :: nat
  mtime :: int

text \<open>
  \<open>path.join(dir, name)\<close> for a name that is one plain path segment, which the join
  leaves as it is.
\<close>

definition path_join :: "string \<Rightarrow> string \<Rightarrow> string" where
  "path_join dir name = dir @ ''/'' @ name"

definition existsSync :: "filesystem \<Rightarrow> string \<Rightarrow> bool" where
  "existsSync fs p = (fs p \<noteq> None)"

text \<open>\<open>fs.statSync(p)\<close> throws when nothing is at \<open>p\<close>: \<open>None\<close>.\<close>

definition statSync :: "filesystem \<Rightarrow> string \<Rightarrow> stats option" where
  "statSync fs p =
     (case fs p of
        None \<Rightarrow> None
      | Some f \<Rightarrow> Some \<lparr>size_st = length (content f), mtime = mtimeMs f\<rparr>)"

text \<open>
  \<open>fs.createReadStream(p, {start, end})\<close> piped into the response. The constructor checks
  the options before anything is opened and throws when \<open>start\<close> or \<open>end\<close> is not an
  integer from 0 to \<open>MAX_SAFE_INTEGER\<close>, or when \<open>start\<close> is greater than \<open>end\<close>. Otherwise
  the stream delivers the bytes at offsets \<open>start\<close> to \<open>end\<close>, both included, as far as
  the file has them; without the options, the whole file. Nothing to open at \<open>p\<close> is the
  stream's \<open>error\<close> event.
\<close>

datatype read_result = Throws | StreamError | Bytes string

definition createReadStream :: "filesystem \<Rightarrow> string \<Rightarrow> (int \<times> int) option \<Rightarrow> read_result" where
  "createReadStream fs p opts =
     (case opts of
        None \<Rightarrow>
          (case fs p of
             None \<Rightarrow> StreamError
           | Some f \<Rightarrow> Bytes (content f))
      | Some (start, end) \<Rightarrow>
          if start < 0 \<or> MAX_SAFE_INTEGER < start \<or> end < 0 \<or> MAX_SAFE_INTEGER < end
             \<or> start > end
          then Throws
          else
            (case fs p of
               None \<Rightarrow> StreamError
             | Some f \<Rightarrow>
                 Bytes (take (nat (end - start + 1)) (drop (nat start) (content f)))))"

subsection \<open>Request and response\<close>

record request =
  file_param :: string
  accept_encoding :: "string option"
  range_hdr :: "string option"

record response =
  status :: nat
  headers :: "string \<rightharpoonup> string"
  body :: string

definition setHeader :: "string \<Rightarrow> string \<Rightarrow> response \<Rightarrow> response" where
  "setHeader name v res = res\<lparr>headers := (headers res)(name \<mapsto> v)\<rparr>"

text \<open>A response before the handler writes to it: status 200, nothing set, nothing sent.\<close>

definition fresh_response :: response where
  "fresh_response = \<lparr>status = 200, headers = Map.empty, body = []\<rparr>"

text \<open>\<open>res.send(text)\<close> and \<open>res.sendStatus(code)\<close> as far as the body goes.\<close>

definition send :: "string \<Rightarrow> response \<Rightarrow> response" where
  "send text res = res\<lparr>body := text\<rparr>"

definition sendStatus500 :: "response \<Rightarrow> response" where
  "sendStatus500 res = res\<lparr>status := 500, body := ''Internal Server Error''\<rparr>"

subsection \<open>The handler\<close>

text \<open>
  Variant selection (the lines after \<open>Determine if client accepts brotli or gzip\<close>):
  the path that will be served and the content encoding, empty for the canonical file.
\<close>

definition choose_variant :: "filesystem \<Rightarrow> string \<Rightarrow> string \<Rightarrow> string \<times> string" where
  "choose_variant fs originalPath acceptEnc =
     (if str_includes acceptEnc ''br'' \<and> existsSync fs (originalPath @ ''.br'')
        then (originalPath @ ''.br'', ''br'')
      else if str_includes acceptEnc ''gzip'' \<and> existsSync fs (originalPath @ ''.gz'')
        then (originalPath @ ''.gz'', ''gzip'')
      else (originalPath, ''''))"

text \<open>
  The \<open>Range\<close> header parsed as the handler does: \<open>bytes=\<close> removed, the rest split at
  \<open>-\<close>, the first piece the start, the second the end, which defaults to \<open>total - 1\<close> when
  it is missing or empty.
\<close>

definition range_parts :: "string \<Rightarrow> string list" where
  "range_parts r = split (CHR ''-'') (replace ''bytes='' [] r)"

definition range_start :: "string \<Rightarrow> number" where
  "range_start r = (case range_parts r of [] \<Rightarrow> NaN | p0 # _ \<Rightarrow> parseInt p0)"

definition range_end :: "nat \<Rightarrow> string \<Rightarrow> number" where
  "range_end total_bytes r =
     (case range_parts r of
        _ # p1 # _ \<Rightarrow> if p1 \<noteq> [] then parseInt p1 else Num (int total_bytes - 1)
      | _ \<Rightarrow> Num (int total_bytes - 1))"

text \<open>
  The body of the \<open>try\<close> block once \<open>statSync\<close> has returned \<open>total\<close>. A \<open>Range\<close>
  header that is absent or empty is falsy and takes the full-body branch. The guard
  \<open>Number.isNaN(start) || Number.isNaN(end) || start > end\<close> is the case distinction on
  the two parsed numbers. \<open>createReadStream\<close> throwing is caught by the \<open>catch\<close> of the
  block, which answers status 500 with the text \<open>Server error\<close> on the response as it is
  by then; the stream's \<open>error\<close> event is answered by \<open>sendStatus(500)\<close>.
\<close>

definition serve :: "filesystem \<Rightarrow> string \<Rightarrow> string \<Rightarrow> string \<Rightarrow> nat \<Rightarrow> string option \<Rightarrow>
    response \<Rightarrow> response" where
  "serve fs fileName chosenPath contentEncoding total_bytes rng res0 =
     (let r = (case rng of None \<Rightarrow> [] | Some h \<Rightarrow> h);
          res1 = setHeader ''Content-Type'' ''model/gltf-binary'' res0;
          res2 = (if contentEncoding \<noteq> [] then setHeader ''Content-Encoding'' contentEncoding res1
                  else res1);
          res3 = (if str_includes fileName ''-optimized''
                  then setHeader ''Cache-Control'' ''public, max-age=31536000, immutable'' res2
                  else setHeader ''Cache-Control'' ''public, max-age=86400'' res2)
      in if r \<noteq> [] then
           (case (range_start r, range_end total_bytes r) of
              (Num start, Num end) \<Rightarrow>
                if start > end then
                  setHeader ''Content-Range'' (''bytes */'' @ String_num (Num (int total_bytes)))
                    (res3\<lparr>status := 416\<rparr>)
                else
                  (let chunkSize = (end - start) + 1;
                       res4 = setHeader ''Content-Length'' (String_num (Num chunkSize))
                                (setHeader ''Accept-Ranges'' ''bytes''
                                  (setHeader ''Content-Range''
                                     (''bytes '' @ String_num (Num start) @ ''-''
                                        @ String_num (Num end) @ ''/'' @ String_num (Num (int total_bytes)))
                                     (res3\<lparr>status := 206\<rparr>)))
                   in case createReadStream fs chosenPath (Some (start, end)) of
                        Bytes bs \<Rightarrow> res4\<lparr>body := bs\<rparr>
                      | StreamError \<Rightarrow> sendStatus500 res4
                      | Throws \<Rightarrow> send ''Server error'' (res4\<lparr>status := 500\<rparr>))
            | _ \<Rightarrow>
                setHeader ''Content-Range'' (''bytes */'' @ String_num (Num (int total_bytes)))
                  (res3\<lparr>status := 416\<rparr>))
         else
           (let res4 = setHeader ''Content-Length'' (String_num (Num (int total_bytes)))
                         (setHeader ''Accept-Ranges'' ''bytes'' res3)
            in case createReadStream fs chosenPath None of
                 Bytes bs \<Rightarrow> res4\<lparr>body := bs\<rparr>
               | StreamError \<Rightarrow> sendStatus500 res4
               | Throws \<Rightarrow> send ''Server error'' (res4\<lparr>status := 500\<rparr>)))"

text \<open>
  The header as the handler reads it into \<open>acceptEnc\<close>: an absent header and an empty
  one both give the empty string.
\<close>

definition acceptEnc_of :: "request \<Rightarrow> string" where
  "acceptEnc_of req = (case accept_encoding req of None \<Rightarrow> [] | Some h \<Rightarrow> h)"

text \<open>
  \<open>app.get('/models/:file', ...)\<close>. \<open>statSync\<close> throwing is caught and answered with
  status 500.
\<close>

definition get_model :: "string \<Rightarrow> filesystem \<Rightarrow> request \<Rightarrow> response" where
  "get_model modelsDir fs req =
     (let fileName = file_param req;
          originalPath = path_join modelsDir fileName
      in if \<not> existsSync fs originalPath then
           send ''Not found'' (fresh_response\<lparr>status := 404\<rparr>)
         else
           (let res0 = setHeader ''Vary'' ''Accept-Encoding''
                         (setHeader ''Access-Control-Allow-Origin'' ''*'' fresh_response);
                acceptEnc = acceptEnc_of req;
                (chosenPath, contentEncoding) = choose_variant fs originalPath acceptEnc
            in case statSync fs chosenPath of
                 None \<Rightarrow> send ''Server error'' (res0\<lparr>status := 500\<rparr>)
               | Some stat \<Rightarrow>
                   serve fs fileName chosenPath contentEncoding (size_st stat) (range_hdr req) res0))"

text \<open>
  The variant the handler selects for a request, as a path and its content encoding:
  \<open>chosenPath\<close> and \<open>contentEncoding\<close> at the end of the selection.
\<close>

definition selected :: "string \<Rightarrow> filesystem \<Rightarrow> request \<Rightarrow> string \<times> string" where
  "selected modelsDir fs req =
     choose_variant fs (path_join modelsDir (file_param req)) (acceptEnc_of req)"

subsection \<open>A sample models directory and sample requests\<close>

text \<open>
  A small directory to run the handler on: an asset with both siblings, the brotli one
  older than the asset itself; an asset named as optimized; an asset of a thousand bytes;
  and siblings of \<open>lamp.glb\<close> next to a \<open>Lamp.glb\<close>, with no \<open>lamp.glb\<close> itself.
\<close>

definition demo_fs :: filesystem where
  "demo_fs = map_of
     [(''models/a.glb'', mk_file ''0123456789'' 10),
      (''models/a.glb.br'', mk_file ''BRBR'' 5),
      (''models/a.glb.gz'', mk_file ''GZIPPED'' 20),
      (''models/chair-optimized.glb'', mk_file ''abcdefghijklmnopqrstuvwxyz'' 30),
      (''models/big.glb'', mk_file (replicate 1000 (CHR ''m'')) 40),
      (''models/Lamp.glb'', mk_file ''LAMP'' 50),
      (''models/lamp.glb.br'', mk_file ''lampbr'' 60),
      (''models/lamp.glb.gz'', mk_file ''lampgz'' 60)]"

definition range_req :: request where
  "range_req = \<lparr>file_param = ''a.glb'', accept_encoding = None, range_hdr = Some ''bytes=2-5''\<rparr>"

definition br_req :: request where
  "br_req = \<lparr>file_param = ''a.glb'', accept_encoding = Some ''gzip, deflate, br'', range_hdr = None\<rparr>"

definition stale_br_req :: request where
  "stale_br_req = \<lparr>file_param = ''a.glb'', accept_encoding = Some ''br'', range_hdr = None\<rparr>"

text \<open>The same directory with every modification time replaced.\<close>

definition set_mtimes :: "(string \<Rightarrow> int) \<Rightarrow> filesystem \<Rightarrow> filesystem" where
  "set_mtimes t fs = (\<lambda>p. map_option (\<lambda>f. f\<lparr>mtimeMs := t p\<rparr>) (fs p))"

definition beyond_req :: request where
  "beyond_req = \<lparr>file_param = ''a.glb'', accept_encoding = None, range_hdr = Some ''bytes=0-5000''\<rparr>"

definition past_end_req :: request where
  "past_end_req = \<lparr>file_param = ''a.glb'', accept_encoding = None, range_hdr = Some ''bytes=20-30''\<rparr>"

definition unsafe_req :: request where
  "unsafe_req = \<lparr>file_param = ''a.glb'', accept_encoding = None,
     range_hdr = Some ''bytes=0-99999999999999999999''\<rparr>"

definition backwards_req :: request where
  "backwards_req = \<lparr>file_param = ''big.glb'', accept_encoding = None, range_hdr = Some ''bytes=300-200''\<rparr>"

definition suffix_req :: request where
  "suffix_req = \<lparr>file_param = ''big.glb'', accept_encoding = None, range_hdr = Some ''bytes=-500''\<rparr>"


definition chair_req :: request where
  "chair_req = \<lparr>file_param = ''chair-optimized.glb'', accept_encoding = None, range_hdr = None\<rparr>"

section \<open>Properties of the string functions\<close>

text \<open>\<open>str_includes\<close> is substring containment, and the first occurrence of a pattern at
  the front of a string is the one \<open>replace\<close> removes.\<close>

lemma str_includes_sublist: "str_includes s t \<longleftrightarrow> sublist t s"
  by (induction s) (auto simp: sublist_Cons_right)

lemma str_includes_Nil_left: "t \<noteq> [] \<Longrightarrow> \<not> str_includes [] t"
  by simp

lemma replace_prefix: "replace pat rep (pat @ s) = rep @ s"
proof (cases "pat @ s")
  case Nil
  then show ?thesis by simp
next
  case (Cons a l)
  have "prefix pat (a # l)" "drop (length pat) (a # l) = s"
    using Cons [symmetric] by simp_all
  then have "replace pat rep (a # l) = rep @ s" by simp
  then show ?thesis using Cons by simp
qed

lemma split_not_Nil: "split sep s \<noteq> []"
  by (induction s) (auto split: list.splits)

lemma split_sep_first: "split sep (sep # s) = [] # split sep s"
  by simp

lemma split_no_sep: "sep \<notin> set s \<Longrightarrow> split sep s = [s]"
  by (induction s) auto

lemma split_append_sep: "sep \<notin> set a \<Longrightarrow> split sep (a @ sep # b) = a # split sep b"
  by (induction a) auto

lemma digits_of_not_Nil: "digits_of n \<noteq> []"
  by (subst digits_of.simps) simp

lemma below_ten: "(d::nat) < 10 \<Longrightarrow> d \<in> {0, 1, 2, 3, 4, 5, 6, 7, 8, 9}"
  by auto

lemma is_digit_digit_char: "d < 10 \<Longrightarrow> is_digit (digit_char d)"
  by (drule below_ten) (auto simp: is_digit_def digit_char_def)

lemma digit_val_digit_char: "d < 10 \<Longrightarrow> digit_val (digit_char d) = d"
  by (drule below_ten) (auto simp: digit_val_def digit_char_def)

lemma digits_of_all_digits: "\<forall>c \<in> set (digits_of n). is_digit c"
proof (induction n rule: digits_of.induct)
  case (1 n)
  show ?case
  proof (cases "n < 10")
    case True
    then show ?thesis by (subst digits_of.simps) (simp add: is_digit_digit_char)
  next
    case False
    with 1 show ?thesis by (subst digits_of.simps) (simp add: is_digit_digit_char)
  qed
qed

lemma digits_val_snoc: "digits_val (ds @ [c]) = 10 * digits_val ds + digit_val c"
  by (simp add: digits_val_def)

lemma digits_val_digits_of: "digits_val (digits_of n) = n"
proof (induction n rule: digits_of.induct)
  case (1 n)
  show ?case
  proof (cases "n < 10")
    case True
    then show ?thesis by (subst digits_of.simps) (simp add: digits_val_def digit_val_digit_char)
  next
    case False
    with 1 show ?thesis
      by (subst digits_of.simps) (simp add: digits_val_snoc digit_val_digit_char)
  qed
qed

lemma is_digit_not_space: "is_digit c \<Longrightarrow> \<not> is_space c"
  by (auto simp: is_digit_def is_space_def)

lemma is_digit_not_sign: "is_digit c \<Longrightarrow> c \<noteq> CHR ''-'' \<and> c \<noteq> CHR ''+''"
  by (auto simp: is_digit_def)

lemma minus_notin_digits_of: "CHR ''-'' \<notin> set (digits_of n)"
  using digits_of_all_digits [of n] is_digit_not_sign by blast

lemma parseInt_digits_of: "parseInt (digits_of n) = Num (int n)"
proof -
  obtain c cs where cs: "digits_of n = c # cs"
    using digits_of_not_Nil [of n] by (cases "digits_of n") auto
  have all: "\<forall>x \<in> set (c # cs). is_digit x"
    using digits_of_all_digits [of n] cs by simp
  then have c: "is_digit c" by simp
  have dw: "dropWhile is_space (digits_of n) = c # cs"
    using c is_digit_not_space cs by simp
  have tw: "takeWhile is_digit (c # cs) = digits_of n"
    using all cs by (simp add: takeWhile_eq_all_conv)
  have sg: "c \<noteq> CHR ''-''" "c \<noteq> CHR ''+''"
    using is_digit_not_sign [OF c] by simp_all
  show ?thesis
    unfolding parseInt_def Let_def dw
    by (simp only: list.case sg if_False disj_absorb tw digits_of_not_Nil
          digits_val_digits_of mult_1)
qed

section \<open>Parsing a \<open>Range\<close> header\<close>

text \<open>A header \<open>bytes=<start>-<end>\<close> written with decimal numbers parses back to those
  numbers; the suffix form \<open>bytes=-<n>\<close> has an empty first piece, which is not a number.\<close>

lemma String_num_nat: "String_num (Num (int n)) = digits_of n"
  by (simp add: String_int_def)

lemma range_parts_bytes: "range_parts (''bytes='' @ a @ ''-'' @ b) = split (CHR ''-'') (a @ CHR ''-'' # b)"
  unfolding range_parts_def using replace_prefix [of "''bytes=''" "[]" "a @ ''-'' @ b"] by simp

lemma range_start_numeric: "range_start (''bytes='' @ digits_of s @ ''-'' @ digits_of e) = Num (int s)"
  unfolding range_start_def range_parts_bytes
  by (simp add: split_append_sep minus_notin_digits_of parseInt_digits_of)

lemma range_end_numeric: "range_end t (''bytes='' @ digits_of s @ ''-'' @ digits_of e) = Num (int e)"
  unfolding range_end_def range_parts_bytes
  by (simp add: split_append_sep split_no_sep minus_notin_digits_of parseInt_digits_of digits_of_not_Nil)

lemma parseInt_Nil: "parseInt [] = NaN"
  by (simp add: parseInt_def)

lemma range_start_suffix: "range_start (''bytes=-'' @ n) = NaN"
proof -
  have "range_parts (''bytes=-'' @ n) = [] # split (CHR ''-'') n"
    using range_parts_bytes [of "[]" n] by simp
  then show ?thesis by (simp add: range_start_def parseInt_Nil)
qed

section \<open>Files\<close>

text \<open>A file made from few enough bytes has those bytes, and no file has more bytes than
  the largest safe integer.\<close>

lemma content_mk_file [simp]: "length bs \<le> 9007199254740991 \<Longrightarrow> content (mk_file bs t) = bs"
  by (simp add: content_def mk_file_def Abs_file_bytes_inverse)

lemma mtimeMs_mk_file [simp]: "mtimeMs (mk_file bs t) = t"
  by (simp add: mk_file_def)

lemma content_mtimeMs_update [simp]: "content (f\<lparr>mtimeMs := t\<rparr>) = content f"
  by (simp add: content_def)

lemma content_bound: "int (length (content f)) \<le> MAX_SAFE_INTEGER"
  using Rep_file_bytes [of "bytes f"] by (simp add: content_def MAX_SAFE_INTEGER_def)

section \<open>The handler on an existing asset\<close>

text \<open>When the canonical file exists the selected variant exists too, \<open>statSync\<close> returns,
  and the response is that of \<open>serve\<close> on the selected variant. The lemmas after that read
  the status, the body and the headers off each of its branches.\<close>

lemma choose_variant_exists:
  "existsSync fs p \<Longrightarrow> existsSync fs (fst (choose_variant fs p ae))"
  by (simp add: choose_variant_def)

lemma selected_exists:
  "existsSync fs (path_join d (file_param req)) \<Longrightarrow> \<exists>v. fs (fst (selected d fs req)) = Some v"
  using choose_variant_exists [of fs "path_join d (file_param req)" "acceptEnc_of req"]
  by (simp add: selected_def existsSync_def)

lemma get_model_serve:
  assumes "existsSync fs (path_join d (file_param req))"
    and "fs (fst (selected d fs req)) = Some v"
  shows "get_model d fs req =
    serve fs (file_param req) (fst (selected d fs req)) (snd (selected d fs req))
      (length (content v)) (range_hdr req)
      (setHeader ''Vary'' ''Accept-Encoding''
        (setHeader ''Access-Control-Allow-Origin'' ''*'' fresh_response))"
  using assms by (simp add: get_model_def selected_def Let_def statSync_def split_beta)

text \<open>An empty \<open>Range\<close> value is falsy and is answered like a request without the header.\<close>

lemma serve_empty_range:
  "serve fs fn cp enc t (Some []) res0 = serve fs fn cp enc t None res0"
  by (simp add: serve_def)

lemma empty_range_is_no_range:
  assumes "range_hdr req = Some []"
  shows "get_model d fs req = get_model d fs (req\<lparr>range_hdr := None\<rparr>)"
proof -
  have a: "acceptEnc_of (req\<lparr>range_hdr := None\<rparr>) = acceptEnc_of req"
    by (simp add: acceptEnc_of_def)
  show ?thesis
    unfolding get_model_def Let_def a
    by (simp add: assms serve_empty_range cong: prod.case_cong option.case_cong)
qed


lemma serve_full:
  assumes "fs cp = Some v" and "rng = None \<or> rng = Some []"
  shows "status (serve fs fn cp enc t rng res0) = status res0"
    and "body (serve fs fn cp enc t rng res0) = content v"
    and "headers (serve fs fn cp enc t rng res0) ''Accept-Ranges'' = Some ''bytes''"
    and "headers (serve fs fn cp enc t rng res0) ''Content-Length'' = Some (digits_of t)"
  using assms by (auto simp: serve_def Let_def createReadStream_def setHeader_def String_int_def)

lemma serve_unsatisfiable:
  assumes "rng = Some r" and "r \<noteq> []"
    and "range_start r = NaN \<or> range_end t r = NaN \<or>
         (\<exists>s e. range_start r = Num s \<and> range_end t r = Num e \<and> s > e)"
  shows "status (serve fs fn cp enc t rng res0) = 416"
    and "body (serve fs fn cp enc t rng res0) = body res0"
    and "headers (serve fs fn cp enc t rng res0) ''Content-Range'' = Some (''bytes */'' @ digits_of t)"
  using assms by (auto simp: serve_def Let_def setHeader_def String_int_def split: number.splits)

lemma serve_partial:
  assumes "fs cp = Some v" and "rng = Some r" and "r \<noteq> []"
    and "range_start r = Num (int s)" and "range_end t r = Num (int e)" and "s \<le> e"
    and "int e \<le> MAX_SAFE_INTEGER"
  shows "status (serve fs fn cp enc t rng res0) = 206"
    and "body (serve fs fn cp enc t rng res0) = take (e - s + 1) (drop s (content v))"
    and "headers (serve fs fn cp enc t rng res0) ''Content-Range'' =
           Some (''bytes '' @ digits_of s @ ''-'' @ digits_of e @ ''/'' @ digits_of t)"
    and "headers (serve fs fn cp enc t rng res0) ''Accept-Ranges'' = Some ''bytes''"
    and "headers (serve fs fn cp enc t rng res0) ''Content-Length'' = Some (digits_of (e - s + 1))"
proof -
  have n: "nat (int e - int s + 1) = e - s + 1" "int e - int s + 1 = int (e - s + 1)"
    using \<open>s \<le> e\<close> by auto
  show "status (serve fs fn cp enc t rng res0) = 206"
    using assms by (simp add: serve_def Let_def createReadStream_def setHeader_def)
  have "body (serve fs fn cp enc t rng res0) =
          take (nat (int e - int s + 1)) (drop (nat (int s)) (content v))"
    using assms by (simp add: serve_def Let_def createReadStream_def setHeader_def del: nat_int)
  then show "body (serve fs fn cp enc t rng res0) = take (e - s + 1) (drop s (content v))"
    by (simp only: n nat_int)
  show "headers (serve fs fn cp enc t rng res0) ''Content-Range'' =
           Some (''bytes '' @ digits_of s @ ''-'' @ digits_of e @ ''/'' @ digits_of t)"
    using assms by (simp add: serve_def Let_def createReadStream_def setHeader_def String_int_def)
  show "headers (serve fs fn cp enc t rng res0) ''Accept-Ranges'' = Some ''bytes''"
    using assms by (simp add: serve_def Let_def createReadStream_def setHeader_def)
  have "headers (serve fs fn cp enc t rng res0) ''Content-Length'' =
          Some (String_num (Num (int e - int s + 1)))"
    using assms by (simp add: serve_def Let_def createReadStream_def setHeader_def)
  then show "headers (serve fs fn cp enc t rng res0) ''Content-Length'' = Some (digits_of (e - s + 1))"
    by (simp only: n String_num_nat)
qed

text \<open>On an existing path a response of \<open>serve\<close> has one of two shapes, according to the
  \<open>Range\<close> header; the content encoding and the caching directive are the same in both.\<close>

lemma serve_shapes:
  assumes "existsSync fs cp"
  obtains (full) "serve fs fn cp enc t rng res0 \<in> {res. status res = status res0 \<and>
        headers res ''Content-Encoding'' = (if enc = [] then headers res0 ''Content-Encoding'' else Some enc) \<and>
        headers res ''Cache-Control'' =
          Some (if str_includes fn ''-optimized'' then ''public, max-age=31536000, immutable''
                else ''public, max-age=86400'')}"
  | (ranged) "serve fs fn cp enc t rng res0 \<in> {res. status res \<in> {206, 416, 500} \<and>
        headers res ''Content-Encoding'' = (if enc = [] then headers res0 ''Content-Encoding'' else Some enc) \<and>
        headers res ''Cache-Control'' =
          Some (if str_includes fn ''-optimized'' then ''public, max-age=31536000, immutable''
                else ''public, max-age=86400'')}"
proof -
  obtain v where v: "fs cp = Some v" using assms by (auto simp: existsSync_def)
  let ?r = "case rng of None \<Rightarrow> [] | Some h \<Rightarrow> h"
  show thesis
  proof (cases "?r = []")
    case True
    then have "serve fs fn cp enc t rng res0 \<in> {res. status res = status res0 \<and>
        headers res ''Content-Encoding'' = (if enc = [] then headers res0 ''Content-Encoding'' else Some enc) \<and>
        headers res ''Cache-Control'' =
          Some (if str_includes fn ''-optimized'' then ''public, max-age=31536000, immutable''
                else ''public, max-age=86400'')}"
      using v by (simp add: serve_def Let_def createReadStream_def setHeader_def)
    then show thesis by (rule full)
  next
    case False
    then have "serve fs fn cp enc t rng res0 \<in> {res. status res \<in> {206, 416, 500} \<and>
        headers res ''Content-Encoding'' = (if enc = [] then headers res0 ''Content-Encoding'' else Some enc) \<and>
        headers res ''Cache-Control'' =
          Some (if str_includes fn ''-optimized'' then ''public, max-age=31536000, immutable''
                else ''public, max-age=86400'')}"
      using v
      by (cases "range_start ?r"; cases "range_end t ?r")
         (simp_all add: serve_def Let_def createReadStream_def setHeader_def send_def)
    then show thesis by (rule ranged)
  qed
qed

lemma serve_Content_Encoding:
  assumes "headers res0 ''Content-Encoding'' = None" and "existsSync fs cp"
  shows "headers (serve fs fn cp enc t rng res0) ''Content-Encoding'' =
           (if enc = [] then None else Some enc)"
  using assms(1) by (cases rule: serve_shapes [OF assms(2), of fn enc t rng res0]) simp_all

lemma serve_Cache_Control:
  assumes "existsSync fs cp"
  shows "headers (serve fs fn cp enc t rng res0) ''Cache-Control'' =
     Some (if str_includes fn ''-optimized'' then ''public, max-age=31536000, immutable''
           else ''public, max-age=86400'')"
  by (cases rule: serve_shapes [OF assms, of fn enc t rng res0]) simp_all

text \<open>The pieces of a split do not contain the separator, so a bound parsed from a piece of
  the \<open>Range\<close> header is not negative.\<close>

lemma split_pieces: "p \<in> set (split sep s) \<Longrightarrow> sep \<notin> set p"
proof (induction s arbitrary: p)
  case Nil
  then show ?case by simp
next
  case (Cons c cs)
  show ?case
  proof (cases "c = sep")
    case True
    with Cons show ?thesis by auto
  next
    case False
    obtain q qs where q: "split sep cs = q # qs"
      using split_not_Nil [of sep cs] by (cases "split sep cs") auto
    from Cons.prems False q have "p = c # q \<or> p \<in> set qs" by simp
    then show ?thesis
      using Cons.IH [of q] Cons.IH [of p] q False by auto
  qed
qed

lemma parseInt_nonneg:
  assumes "CHR ''-'' \<notin> set s" and "parseInt s = Num n"
  shows "0 \<le> n"
proof -
  have "set (dropWhile is_space s) \<subseteq> set s"
    by (rule set_dropWhileD [THEN subsetI])
  then have "CHR ''-'' \<notin> set (dropWhile is_space s)"
    using assms(1) by blast
  then have "(case dropWhile is_space s of [] \<Rightarrow> (1::int)
               | c # _ \<Rightarrow> if c = CHR ''-'' then - 1 else 1) = 1"
    by (cases "dropWhile is_space s") (simp_all del: dropWhile_eq_Nil_conv, auto)
  then show ?thesis
    using assms(2) by (simp add: parseInt_def Let_def split: if_splits)
qed

lemma range_start_nonneg: "range_start r = Num s \<Longrightarrow> 0 \<le> s"
proof -
  assume a: "range_start r = Num s"
  obtain p ps where p: "range_parts r = p # ps"
    using split_not_Nil [of "CHR ''-''" "replace ''bytes='' [] r"]
    by (cases "range_parts r") (auto simp: range_parts_def)
  then have "CHR ''-'' \<notin> set p"
    using split_pieces [of p "CHR ''-''" "replace ''bytes='' [] r"]
    by (simp add: range_parts_def)
  then show "0 \<le> s"
    using a p parseInt_nonneg [of p s] by (simp add: range_start_def)
qed

text \<open>On an existing path the only answer of \<open>serve\<close> with another status than 200, 206
  and 416 is the one to an end bound beyond the largest safe integer.\<close>

lemma serve_status:
  assumes "existsSync fs cp" and "status res0 = 200"
  shows "status (serve fs fn cp enc t rng res0) \<in> {200, 206, 416} \<or>
         (\<exists>r e. rng = Some r \<and> range_end t r = Num e \<and> MAX_SAFE_INTEGER < e)"
proof -
  obtain v where v: "fs cp = Some v" using assms(1) by (auto simp: existsSync_def)
  show ?thesis
  proof (cases rng)
    case None
    then show ?thesis
      using v assms(2) by (simp add: serve_def Let_def createReadStream_def setHeader_def)
  next
    case (Some r)
    show ?thesis
    proof (cases "range_start r")
      case NaN
      then show ?thesis
        using Some v assms(2)
        by (simp add: serve_def Let_def createReadStream_def setHeader_def)
    next
      case (Num s)
      then have s: "0 \<le> s" by (rule range_start_nonneg)
      show ?thesis
      proof (cases "range_end t r")
        case NaN
        then show ?thesis
          using Some Num v assms(2)
          by (simp add: serve_def Let_def createReadStream_def setHeader_def)
      next
        case e: (Num e)
        show ?thesis
        proof (cases "MAX_SAFE_INTEGER < e")
          case True
          then show ?thesis using Some e by simp
        next
          case False
          then show ?thesis
            using Some Num e s v assms(2)
            by (simp add: serve_def Let_def createReadStream_def setHeader_def)
        qed
      qed
    qed
  qed
qed

lemma selected_range_irrelevant: "selected d fs (req\<lparr>range_hdr := x\<rparr>) = selected d fs req"
  by (simp add: selected_def acceptEnc_of_def)

lemma fresh_headers: 
  "headers (setHeader ''Vary'' ''Accept-Encoding''
        (setHeader ''Access-Control-Allow-Origin'' ''*'' fresh_response)) ''Content-Encoding'' = None"
  "status (setHeader ''Vary'' ''Accept-Encoding''
        (setHeader ''Access-Control-Allow-Origin'' ''*'' fresh_response)) = 200"
  "body (setHeader ''Vary'' ''Accept-Encoding''
        (setHeader ''Access-Control-Allow-Origin'' ''*'' fresh_response)) = []"
  by (simp_all add: setHeader_def fresh_response_def)

lemma get_model_full_body:
  assumes "existsSync fs (path_join d (file_param req))"
    and "fs (fst (selected d fs req)) = Some v"
  shows "body (get_model d fs (req\<lparr>range_hdr := None\<rparr>)) = content v"
proof -
  have "existsSync fs (path_join d (file_param (req\<lparr>range_hdr := None\<rparr>)))"
    using assms(1) by simp
  moreover have "fs (fst (selected d fs (req\<lparr>range_hdr := None\<rparr>))) = Some v"
    using assms(2) by (simp add: selected_range_irrelevant)
  ultimately show ?thesis
    by (simp add: get_model_serve serve_full(2) [where fs = fs and v = v])
qed

lemma get_model_full_status:
  assumes "existsSync fs (path_join d (file_param req))"
    and "fs (fst (selected d fs req)) = Some v"
  shows "status (get_model d fs (req\<lparr>range_hdr := None\<rparr>)) = 200"
proof -
  have "existsSync fs (path_join d (file_param (req\<lparr>range_hdr := None\<rparr>)))"
    using assms(1) by simp
  moreover have "fs (fst (selected d fs (req\<lparr>range_hdr := None\<rparr>))) = Some v"
    using assms(2) by (simp add: selected_range_irrelevant)
  ultimately show ?thesis
    by (simp add: get_model_serve serve_full(1) [where fs = fs and v = v] fresh_headers(2))
qed

lemmas demo_eval = demo_fs_def existsSync_def path_join_def selected_def choose_variant_def
  acceptEnc_of_def

lemma selected_Content_Encoding:
  assumes "existsSync fs (path_join d (file_param req))"
  shows "headers (get_model d fs req) ''Content-Encoding'' =
           (if snd (selected d fs req) = [] then None else Some (snd (selected d fs req)))"
proof -
  obtain v where v: "fs (fst (selected d fs req)) = Some v"
    using selected_exists [OF assms] by blast
  then have ex: "existsSync fs (fst (selected d fs req))"
    by (simp add: existsSync_def)
  show ?thesis
    unfolding get_model_serve [OF assms v]
    by (rule serve_Content_Encoding [OF fresh_headers(1) ex])
qed

lemmas handler_eval = get_model_def serve_def statSync_def createReadStream_def setHeader_def
  fresh_response_def send_def sendStatus500_def range_start_def range_end_def range_parts_def
  parseInt_def is_space_def is_digit_def digits_val_def digit_val_def String_int_def Let_def

lemma same_bytes_existsSync:
  assumes "\<forall>p. map_option content (fs p) = map_option content (fs' p)"
  shows "existsSync fs p = existsSync fs' p"
proof -
  have "map_option content (fs p) = map_option content (fs' p)" using assms by blast
  then show ?thesis by (cases "fs p"; cases "fs' p") (simp_all add: existsSync_def)
qed

lemma same_bytes_createReadStream:
  assumes "\<forall>p. map_option content (fs p) = map_option content (fs' p)"
  shows "createReadStream fs p opts = createReadStream fs' p opts"
proof -
  have "map_option content (fs p) = map_option content (fs' p)" using assms by blast
  then show ?thesis
    by (cases "fs p"; cases "fs' p") (simp_all add: createReadStream_def split: option.splits)
qed

lemma same_bytes_size:
  assumes "\<forall>p. map_option content (fs p) = map_option content (fs' p)"
  shows "map_option size_st (statSync fs p) = map_option size_st (statSync fs' p)"
proof -
  have "map_option content (fs p) = map_option content (fs' p)" using assms by blast
  then show ?thesis
    by (cases "fs p"; cases "fs' p") (simp_all add: statSync_def)
qed

lemma same_bytes_choose_variant:
  assumes "\<forall>p. map_option content (fs p) = map_option content (fs' p)"
  shows "choose_variant fs p ae = choose_variant fs' p ae"
  using same_bytes_existsSync [OF assms] by (simp add: choose_variant_def)

lemma same_bytes_serve:
  assumes "\<forall>p. map_option content (fs p) = map_option content (fs' p)"
  shows "serve fs fn cp enc t rng res0 = serve fs' fn cp enc t rng res0"
proof -
  have e: "createReadStream fs = createReadStream fs'"
    by (intro ext) (rule same_bytes_createReadStream [OF assms])
  show ?thesis unfolding serve_def e by (rule refl)
qed

lemma numeric_range_response:
  assumes "existsSync fs (path_join d (file_param req))"
    and "fs (fst (selected d fs req)) = Some v"
    and "s \<le> e"
    and "range_hdr req = Some (''bytes='' @ digits_of s @ ''-'' @ digits_of e)"
    and "int e \<le> MAX_SAFE_INTEGER"
  shows "status (get_model d fs req) = 206"
    and "headers (get_model d fs req) ''Content-Range'' =
           Some (''bytes '' @ digits_of s @ ''-'' @ digits_of e @ ''/'' @ digits_of (length (content v)))"
    and "headers (get_model d fs req) ''Accept-Ranges'' = Some ''bytes''"
    and "headers (get_model d fs req) ''Content-Length'' = Some (digits_of (e - s + 1))"
    and "body (get_model d fs req) = take (e - s + 1) (drop s (content v))"
proof -
  let ?r = "''bytes='' @ digits_of s @ ''-'' @ digits_of e"
  have r: "range_hdr req = Some ?r" "?r \<noteq> []"
    using assms(4) by simp_all
  have st: "range_start ?r = Num (int s)" and en: "range_end (length (content v)) ?r = Num (int e)"
    by (rule range_start_numeric, rule range_end_numeric)
  note sv = get_model_serve [OF assms(1,2)]
  note p = serve_partial [where fs = fs and cp = "fst (selected d fs req)",
      OF assms(2) r st en assms(3) assms(5)]
  show "status (get_model d fs req) = 206"
    and "headers (get_model d fs req) ''Content-Range'' =
           Some (''bytes '' @ digits_of s @ ''-'' @ digits_of e @ ''/'' @ digits_of (length (content v)))"
    and "headers (get_model d fs req) ''Accept-Ranges'' = Some ''bytes''"
    and "headers (get_model d fs req) ''Content-Length'' = Some (digits_of (e - s + 1))"
    and "body (get_model d fs req) = take (e - s + 1) (drop s (content v))"
    unfolding sv by (rule p)+
qed

text \<open>An end bound beyond the largest safe integer passes the guard of the handler and is
  refused by \<open>createReadStream\<close>: the answer is status 500 with the text \<open>Server error\<close>.\<close>

lemma unsafe_end_bound_is_500:
  "status (get_model ''models'' demo_fs unsafe_req) = 500 \<and>
   body (get_model ''models'' demo_fs unsafe_req) = ''Server error''"
proof -
  let ?r = "''bytes=0-99999999999999999999''"
  have d: "digits_of 0 = ''0''" "digits_of 99999999999999999999 = ''99999999999999999999''"
    by (simp_all add: digits_of.simps digit_char_def)
  have st: "range_start ?r = Num 0"
    using range_start_numeric [of 0 99999999999999999999] by (simp add: d)
  have en: "range_end t ?r = Num 99999999999999999999" for t
    using range_end_numeric [of t 0 99999999999999999999] by (simp add: d)
  have ex: "existsSync demo_fs (path_join ''models'' (file_param unsafe_req))"
    by (simp add: demo_eval unsafe_req_def)
  have sel: "demo_fs (fst (selected ''models'' demo_fs unsafe_req)) = Some (mk_file ''0123456789'' 10)"
    by (simp add: demo_eval unsafe_req_def)
  have rg: "range_hdr unsafe_req = Some ?r"
    by (simp add: unsafe_req_def)
  show ?thesis
    unfolding get_model_serve [OF ex sel]
    by (simp add: serve_def Let_def rg st en createReadStream_def MAX_SAFE_INTEGER_def
          setHeader_def send_def)
qed

section \<open>Range requests\<close>

text \<open>
  Claim C1. For an asset that exists and a request \<open>Range: bytes=<s>-<e>\<close> with decimal
  bounds \<open>s \<le> e < total\<close>, where \<open>total\<close> is the size of the selected variant \<open>v\<close>,
  the handler answers 206 with \<open>Content-Range: bytes <s>-<e>/<total>\<close>,
  \<open>Accept-Ranges: bytes\<close> and \<open>Content-Length: e - s + 1\<close>; the body has exactly
  \<open>e - s + 1\<close> bytes and is that slice of the body the same request gets without its
  \<open>Range\<close> header.
\<close>

theorem partial_content:
  assumes "existsSync fs (path_join modelsDir (file_param req))"
    and "fs (fst (selected modelsDir fs req)) = Some v"
    and "s \<le> e" and "e < length (content v)"
    and "range_hdr req = Some (''bytes='' @ digits_of s @ ''-'' @ digits_of e)"
  shows "status (get_model modelsDir fs req) = 206 \<and>
         headers (get_model modelsDir fs req) ''Content-Range'' =
           Some (''bytes '' @ digits_of s @ ''-'' @ digits_of e @ ''/'' @ digits_of (length (content v))) \<and>
         headers (get_model modelsDir fs req) ''Accept-Ranges'' = Some ''bytes'' \<and>
         headers (get_model modelsDir fs req) ''Content-Length'' = Some (digits_of (e - s + 1)) \<and>
         length (body (get_model modelsDir fs req)) = e - s + 1 \<and>
         body (get_model modelsDir fs req) =
           take (e - s + 1) (drop s (body (get_model modelsDir fs (req\<lparr>range_hdr := None\<rparr>))))"
proof -
  let ?r = "''bytes='' @ digits_of s @ ''-'' @ digits_of e"
  let ?t = "length (content v)"
  have r: "range_hdr req = Some ?r" "?r \<noteq> []"
    using assms(5) by simp_all
  have st: "range_start ?r = Num (int s)" and en: "range_end ?t ?r = Num (int e)"
    by (rule range_start_numeric, rule range_end_numeric)
  note sv = get_model_serve [OF assms(1,2)]
  have safe: "int e \<le> MAX_SAFE_INTEGER"
    using content_bound [of v] assms(4) by simp
  note p = serve_partial [where fs = fs and cp = "fst (selected modelsDir fs req)",
      OF assms(2) r st en assms(3) safe]
  have full: "body (get_model modelsDir fs (req\<lparr>range_hdr := None\<rparr>)) = content v"
    by (rule get_model_full_body [OF assms(1,2)])
  have len: "length (take (e - s + 1) (drop s (content v))) = e - s + 1"
    using assms(3,4) by simp
  show ?thesis
    unfolding sv full using p len by simp
qed

theorem partial_content_witness:
  "existsSync demo_fs (path_join ''models'' (file_param range_req)) \<and>
   demo_fs (fst (selected ''models'' demo_fs range_req)) = Some (mk_file ''0123456789'' 10) \<and>
   (2::nat) \<le> 5 \<and> (5::nat) < length ''0123456789'' \<and>
   range_hdr range_req = Some ''bytes=2-5'' \<and>
   status (get_model ''models'' demo_fs range_req) = 206 \<and>
   headers (get_model ''models'' demo_fs range_req) ''Content-Range'' = Some ''bytes 2-5/10'' \<and>
   headers (get_model ''models'' demo_fs range_req) ''Accept-Ranges'' = Some ''bytes'' \<and>
   headers (get_model ''models'' demo_fs range_req) ''Content-Length'' = Some ''4'' \<and>
   body (get_model ''models'' demo_fs range_req) = ''2345'' \<and>
   body (get_model ''models'' demo_fs (range_req\<lparr>range_hdr := None\<rparr>)) = ''0123456789''"
proof -
  have ex: "existsSync demo_fs (path_join ''models'' (file_param range_req))"
    by (simp add: demo_eval range_req_def)
  have sel: "demo_fs (fst (selected ''models'' demo_fs range_req)) =
      Some (mk_file ''0123456789'' 10)"
    by (simp add: demo_eval range_req_def)
  have d: "digits_of 2 = ''2''" "digits_of 5 = ''5''" "digits_of (5 - 2 + 1) = ''4''"
    "digits_of (length (content (mk_file ''0123456789'' 10))) = ''10''"
    by (simp_all add: digits_of.simps digit_char_def)
  have rg: "range_hdr range_req = Some (''bytes='' @ digits_of 2 @ ''-'' @ digits_of 5)"
    by (simp add: range_req_def d)
  have full: "body (get_model ''models'' demo_fs (range_req\<lparr>range_hdr := None\<rparr>)) = ''0123456789''"
    using get_model_full_body [OF ex sel] by simp
  have "(2::nat) \<le> 5" "(5::nat) < length (content (mk_file ''0123456789'' 10))"
    by simp_all
  from partial_content [OF ex sel this rg, unfolded d full] show ?thesis
    using ex sel full by (simp add: range_req_def)
qed

section \<open>Variant selection\<close>

text \<open>
  Claim C2. For a request for an existing asset the variant is chosen in a fixed order by
  substring containment on the \<open>Accept-Encoding\<close> header: the brotli sibling, with
  \<open>Content-Encoding: br\<close>, when the header contains \<open>br\<close> and the \<open>.br\<close> file exists;
  otherwise the gzip sibling, with \<open>Content-Encoding: gzip\<close>, when the header contains
  \<open>gzip\<close> and the \<open>.gz\<close> file exists; otherwise the canonical file with no
  \<open>Content-Encoding\<close> header. The body of the request without a \<open>Range\<close> header is the
  whole of the chosen file. With both siblings present and both tokens in the header the
  brotli sibling is served.
\<close>

theorem variant_selection:
  assumes "existsSync fs (path_join modelsDir (file_param req))"
  shows "let originalPath = path_join modelsDir (file_param req);
             br = (str_includes (acceptEnc_of req) ''br'' \<and> existsSync fs (originalPath @ ''.br''));
             gz = (str_includes (acceptEnc_of req) ''gzip'' \<and> existsSync fs (originalPath @ ''.gz''))
         in headers (get_model modelsDir fs req) ''Content-Encoding'' =
              (if br then Some ''br'' else if gz then Some ''gzip'' else None) \<and>
            Some (body (get_model modelsDir fs (req\<lparr>range_hdr := None\<rparr>))) =
              map_option content
                (fs (if br then originalPath @ ''.br'' else if gz then originalPath @ ''.gz''
                     else originalPath))"
proof -
  obtain v where v: "fs (fst (selected modelsDir fs req)) = Some v"
    using selected_exists [OF assms] by blast
  note ce = selected_Content_Encoding [OF assms]
  note fb = get_model_full_body [OF assms v]
  show ?thesis
    using ce fb v by (auto simp: Let_def selected_def choose_variant_def)
qed

theorem variant_selection_witness:
  "existsSync demo_fs (path_join ''models'' (file_param br_req)) \<and>
   str_includes (acceptEnc_of br_req) ''br'' \<and> str_includes (acceptEnc_of br_req) ''gzip'' \<and>
   existsSync demo_fs (''models/a.glb.br'') \<and> existsSync demo_fs (''models/a.glb.gz'') \<and>
   headers (get_model ''models'' demo_fs br_req) ''Content-Encoding'' = Some ''br'' \<and>
   body (get_model ''models'' demo_fs (br_req\<lparr>range_hdr := None\<rparr>)) = ''BRBR''"
proof -
  have ex: "existsSync demo_fs (path_join ''models'' (file_param br_req))"
    by (simp add: demo_eval br_req_def)
  have inc: "str_includes (acceptEnc_of br_req) ''br''" "str_includes (acceptEnc_of br_req) ''gzip''"
    by (simp_all add: acceptEnc_of_def br_req_def)
  from variant_selection [OF ex] show ?thesis
    using ex inc by (simp add: Let_def demo_fs_def existsSync_def path_join_def br_req_def)
qed

text \<open>
  Claim C3 says that a sibling older than the canonical file is left out of the
  selection. The handler never reads a modification time: in the sample directory the
  brotli sibling is older than \<open>a.glb\<close> and is served all the same.
\<close>

theorem stale_sibling_served_counterexample:
  "mtimeMs (the (demo_fs ''models/a.glb.br'')) < mtimeMs (the (demo_fs ''models/a.glb'')) \<and>
   headers (get_model ''models'' demo_fs stale_br_req) ''Content-Encoding'' = Some ''br'' \<and>
   body (get_model ''models'' demo_fs stale_br_req) = content (the (demo_fs ''models/a.glb.br'')) \<and>
   body (get_model ''models'' demo_fs stale_br_req) = ''BRBR''"
  by (simp add: stale_br_req_def demo_eval handler_eval)

text \<open>
  Claim C3 as the handler has it: the response depends on which files exist and on their
  bytes only. Two directories that agree on those, whatever their modification times,
  get the same response to every request, so a sibling that exists is eligible at any age.
\<close>

theorem mtime_not_consulted:
  assumes "\<forall>p. map_option content (fs p) = map_option content (fs' p)"
  shows "get_model modelsDir fs req = get_model modelsDir fs' req"
proof -
  let ?orig = "path_join modelsDir (file_param req)"
  obtain cp enc where ch: "choose_variant fs ?orig (acceptEnc_of req) = (cp, enc)"
    by (cases "choose_variant fs ?orig (acceptEnc_of req)")
  then have ch': "choose_variant fs' ?orig (acceptEnc_of req) = (cp, enc)"
    using same_bytes_choose_variant [OF assms] by simp
  have ex: "existsSync fs ?orig = existsSync fs' ?orig"
    by (rule same_bytes_existsSync [OF assms])
  have sz: "map_option size_st (statSync fs cp) = map_option size_st (statSync fs' cp)"
    by (rule same_bytes_size [OF assms])
  have sv: "\<And>t res0. serve fs (file_param req) cp enc t (range_hdr req) res0 =
      serve fs' (file_param req) cp enc t (range_hdr req) res0"
    by (rule same_bytes_serve [OF assms])
  show ?thesis
    using ex sz sv
    by (cases "statSync fs cp"; cases "statSync fs' cp")
       (simp_all add: get_model_def Let_def ch ch')
qed

theorem mtime_not_consulted_witness:
  "(\<forall>p. map_option content (demo_fs p) = map_option content (set_mtimes (\<lambda>_. 0) demo_fs p)) \<and>
   mtimeMs (the (demo_fs ''models/a.glb.br'')) \<noteq> mtimeMs (the (set_mtimes (\<lambda>_. 0) demo_fs ''models/a.glb.br'')) \<and>
   get_model ''models'' demo_fs stale_br_req = get_model ''models'' (set_mtimes (\<lambda>_. 0) demo_fs) stale_br_req"
proof -
  have h: "\<forall>p. map_option content (demo_fs p) = map_option content (set_mtimes (\<lambda>_. 0) demo_fs p)"
    by (simp add: set_mtimes_def option.map_comp comp_def)
  have "mtimeMs (the (demo_fs ''models/a.glb.br'')) \<noteq> mtimeMs (the (set_mtimes (\<lambda>_. 0) demo_fs ''models/a.glb.br''))"
    by (simp add: set_mtimes_def demo_fs_def)
  with mtime_not_consulted [OF h] h show ?thesis by simp
qed

section \<open>Ranges that reach beyond the file\<close>

text \<open>
  Claim C4 says that a range whose end exceeds \<open>total - 1\<close>, or whose start is at or
  beyond \<open>total\<close>, is answered 416 and never 206. The guard compares the bounds with each
  other and not with \<open>total\<close>: on the ten-byte asset \<open>bytes=0-5000\<close> is answered 206 with
  \<open>Content-Length: 5001\<close> and the ten bytes the file has, and \<open>bytes=20-30\<close> is answered
  206 with \<open>Content-Length: 11\<close> and no byte at all.
\<close>

theorem range_beyond_total_is_206:
  "status (get_model ''models'' demo_fs beyond_req) = 206 \<and>
   headers (get_model ''models'' demo_fs beyond_req) ''Content-Range'' = Some ''bytes 0-5000/10'' \<and>
   headers (get_model ''models'' demo_fs beyond_req) ''Content-Length'' = Some ''5001'' \<and>
   body (get_model ''models'' demo_fs beyond_req) = ''0123456789'' \<and>
   status (get_model ''models'' demo_fs past_end_req) = 206 \<and>
   headers (get_model ''models'' demo_fs past_end_req) ''Content-Range'' = Some ''bytes 20-30/10'' \<and>
   headers (get_model ''models'' demo_fs past_end_req) ''Content-Length'' = Some ''11'' \<and>
   body (get_model ''models'' demo_fs past_end_req) = []"
proof -
  let ?v = "mk_file ''0123456789'' 10"
  have d: "digits_of 0 = ''0''" "digits_of 5000 = ''5000''" "digits_of (5000 - 0 + 1) = ''5001''"
    "digits_of (length (content ?v)) = ''10''" "digits_of 20 = ''20''" "digits_of 30 = ''30''"
    "digits_of (30 - 20 + 1) = ''11''"
    by (simp_all add: digits_of.simps digit_char_def)
  have ex: "existsSync demo_fs (path_join ''models'' (file_param beyond_req))"
    "existsSync demo_fs (path_join ''models'' (file_param past_end_req))"
    by (simp_all add: demo_eval beyond_req_def past_end_req_def)
  have sel: "demo_fs (fst (selected ''models'' demo_fs beyond_req)) = Some ?v"
    "demo_fs (fst (selected ''models'' demo_fs past_end_req)) = Some ?v"
    by (simp_all add: demo_eval beyond_req_def past_end_req_def)
  have r1: "range_hdr beyond_req = Some (''bytes='' @ digits_of 0 @ ''-'' @ digits_of 5000)"
    by (simp add: beyond_req_def d)
  have r2: "range_hdr past_end_req = Some (''bytes='' @ digits_of 20 @ ''-'' @ digits_of 30)"
    by (simp add: past_end_req_def d)
  note a = numeric_range_response [OF ex(1) sel(1) _ r1, unfolded d]
  note b = numeric_range_response [OF ex(2) sel(2) _ r2, unfolded d]
  show ?thesis
    using a b by (simp add: MAX_SAFE_INTEGER_def)
qed

section \<open>Ranges that cannot be served\<close>

text \<open>
  Claim C5. For a request for an existing asset with a \<open>Range\<close> header the handler
  parses (a non-empty value; an empty one counts as no header), if the start or the end
  does not parse as a number, or the parsed start is greater than the parsed end, the
  answer is status 416 with \<open>Content-Range: bytes */<total>\<close>, \<open>total\<close> the size of the
  selected variant, and an empty body. The witness is \<open>bytes=300-200\<close> on the asset of a
  thousand bytes.
\<close>

theorem unsatisfiable_range:
  assumes "existsSync fs (path_join modelsDir (file_param req))"
    and "fs (fst (selected modelsDir fs req)) = Some v"
    and "range_hdr req = Some r" and "r \<noteq> []"
    and "range_start r = NaN \<or> range_end (length (content v)) r = NaN \<or>
         (\<exists>s e. range_start r = Num s \<and> range_end (length (content v)) r = Num e \<and> s > e)"
  shows "status (get_model modelsDir fs req) = 416 \<and>
         headers (get_model modelsDir fs req) ''Content-Range'' =
           Some (''bytes */'' @ digits_of (length (content v))) \<and>
         body (get_model modelsDir fs req) = []"
  unfolding get_model_serve [OF assms(1,2)]
  using serve_unsatisfiable [OF assms(3,4,5)] fresh_headers(3) by simp

theorem unsatisfiable_range_witness:
  "existsSync demo_fs (path_join ''models'' (file_param backwards_req)) \<and>
   demo_fs (fst (selected ''models'' demo_fs backwards_req)) =
     Some (mk_file (replicate 1000 (CHR ''m'')) 40) \<and>
   range_hdr backwards_req = Some ''bytes=300-200'' \<and>
   range_start ''bytes=300-200'' = Num 300 \<and> range_end 1000 ''bytes=300-200'' = Num 200 \<and>
   status (get_model ''models'' demo_fs backwards_req) = 416 \<and>
   headers (get_model ''models'' demo_fs backwards_req) ''Content-Range'' = Some ''bytes */1000'' \<and>
   body (get_model ''models'' demo_fs backwards_req) = []"
proof -
  let ?v = "mk_file (replicate 1000 (CHR ''m'')) 40"
  have ex: "existsSync demo_fs (path_join ''models'' (file_param backwards_req))"
    by (simp add: demo_eval backwards_req_def)
  have sel: "demo_fs (fst (selected ''models'' demo_fs backwards_req)) = Some ?v"
    by (simp add: demo_eval backwards_req_def)
  have d: "digits_of 300 = ''300''" "digits_of 200 = ''200''" "digits_of 1000 = ''1000''"
    by (simp_all add: digits_of.simps digit_char_def)
  have rg: "range_hdr backwards_req = Some ''bytes=300-200''" "''bytes=300-200'' \<noteq> []"
    by (simp_all add: backwards_req_def)
  have st: "range_start ''bytes=300-200'' = Num 300"
    using range_start_numeric [of 300 200] by (simp add: d)
  have en: "range_end (length (content ?v)) ''bytes=300-200'' = Num 200"
    using range_end_numeric [of "length (content ?v)" 300 200] by (simp add: d)
  have bad: "range_start ''bytes=300-200'' = NaN \<or>
      range_end (length (content ?v)) ''bytes=300-200'' = NaN \<or>
      (\<exists>s e. range_start ''bytes=300-200'' = Num s \<and>
         range_end (length (content ?v)) ''bytes=300-200'' = Num e \<and> s > e)"
    using st en by simp
  from unsatisfiable_range [OF ex sel rg bad] show ?thesis
    using ex sel rg st en by (simp add: d)
qed

text \<open>
  Claim C9. A \<open>Range\<close> header in the suffix form \<open>bytes=-<n>\<close>, whatever follows the
  dash, is answered 416 with \<open>Content-Range: bytes */<total>\<close> and an empty body: the
  piece before the dash is empty and does not parse as a number, so the last \<open>n\<close> bytes
  are never served.
\<close>

theorem suffix_range_rejected:
  assumes "existsSync fs (path_join modelsDir (file_param req))"
    and "fs (fst (selected modelsDir fs req)) = Some v"
    and "range_hdr req = Some (''bytes=-'' @ n)"
  shows "status (get_model modelsDir fs req) = 416 \<and>
         headers (get_model modelsDir fs req) ''Content-Range'' =
           Some (''bytes */'' @ digits_of (length (content v))) \<and>
         body (get_model modelsDir fs req) = []"
proof -
  have ne: "''bytes=-'' @ n \<noteq> []" by simp
  have bad: "range_start (''bytes=-'' @ n) = NaN \<or>
      range_end (length (content v)) (''bytes=-'' @ n) = NaN \<or>
      (\<exists>s e. range_start (''bytes=-'' @ n) = Num s \<and>
         range_end (length (content v)) (''bytes=-'' @ n) = Num e \<and> s > e)"
    using range_start_suffix [of n] by simp
  show ?thesis
    unfolding get_model_serve [OF assms(1,2)]
    using serve_unsatisfiable [OF assms(3) ne bad] fresh_headers(3) by simp
qed

theorem suffix_range_rejected_witness:
  "existsSync demo_fs (path_join ''models'' (file_param suffix_req)) \<and>
   demo_fs (fst (selected ''models'' demo_fs suffix_req)) =
     Some (mk_file (replicate 1000 (CHR ''m'')) 40) \<and>
   range_hdr suffix_req = Some ''bytes=-500'' \<and>
   status (get_model ''models'' demo_fs suffix_req) = 416 \<and>
   headers (get_model ''models'' demo_fs suffix_req) ''Content-Range'' = Some ''bytes */1000'' \<and>
   body (get_model ''models'' demo_fs suffix_req) = []"
proof -
  let ?v = "mk_file (replicate 1000 (CHR ''m'')) 40"
  have ex: "existsSync demo_fs (path_join ''models'' (file_param suffix_req))"
    by (simp add: demo_eval suffix_req_def)
  have sel: "demo_fs (fst (selected ''models'' demo_fs suffix_req)) = Some ?v"
    by (simp add: demo_eval suffix_req_def)
  have rg: "range_hdr suffix_req = Some (''bytes=-'' @ ''500'')"
    by (simp add: suffix_req_def)
  have d: "digits_of (length (content ?v)) = ''1000''"
    by (simp add: digits_of.simps digit_char_def)
  from suffix_range_rejected [OF ex sel rg, unfolded d] show ?thesis
    using ex sel rg by simp
qed

section \<open>Missing assets\<close>



section \<open>Full responses and caching\<close>

text \<open>
  Claim C7. A request for an existing asset without a \<open>Range\<close> header is answered with
  status 200, \<open>Accept-Ranges: bytes\<close>, \<open>Content-Length\<close> the size of the selected variant,
  and the whole of that variant as the body.
\<close>

theorem full_body:
  assumes "existsSync fs (path_join modelsDir (file_param req))"
    and "fs (fst (selected modelsDir fs req)) = Some v"
    and "range_hdr req = None"
  shows "status (get_model modelsDir fs req) = 200 \<and>
         headers (get_model modelsDir fs req) ''Accept-Ranges'' = Some ''bytes'' \<and>
         headers (get_model modelsDir fs req) ''Content-Length'' = Some (digits_of (length (content v))) \<and>
         body (get_model modelsDir fs req) = content v"
proof -
  have rng: "range_hdr req = None \<or> range_hdr req = Some []"
    using assms(3) by simp
  note f = serve_full [where fs = fs and cp = "fst (selected modelsDir fs req)", OF assms(2) rng]
  show ?thesis
    unfolding get_model_serve [OF assms(1,2)] using f fresh_headers(2) by simp
qed

theorem full_body_witness:
  "existsSync demo_fs (path_join ''models'' (file_param chair_req)) \<and>
   demo_fs (fst (selected ''models'' demo_fs chair_req)) =
     Some (mk_file ''abcdefghijklmnopqrstuvwxyz'' 30) \<and>
   range_hdr chair_req = None \<and>
   status (get_model ''models'' demo_fs chair_req) = 200 \<and>
   headers (get_model ''models'' demo_fs chair_req) ''Accept-Ranges'' = Some ''bytes'' \<and>
   headers (get_model ''models'' demo_fs chair_req) ''Content-Length'' = Some ''26'' \<and>
   body (get_model ''models'' demo_fs chair_req) = ''abcdefghijklmnopqrstuvwxyz''"
proof -
  let ?v = "mk_file ''abcdefghijklmnopqrstuvwxyz'' 30"
  have ex: "existsSync demo_fs (path_join ''models'' (file_param chair_req))"
    by (simp add: demo_eval chair_req_def)
  have sel: "demo_fs (fst (selected ''models'' demo_fs chair_req)) = Some ?v"
    by (simp add: demo_eval chair_req_def)
  have rg: "range_hdr chair_req = None"
    by (simp add: chair_req_def)
  have d: "digits_of (length (content ?v)) = ''26''"
    by (simp add: digits_of.simps digit_char_def)
  from full_body [OF ex sel rg, unfolded d] show ?thesis
    using ex sel rg by simp
qed

text \<open>
  Claim C8. For a request for an existing asset the \<open>Cache-Control\<close> header depends on
  the requested name alone: \<open>public, max-age=31536000, immutable\<close> when the name contains
  \<open>-optimized\<close>, and \<open>public, max-age=86400\<close> otherwise.
\<close>

theorem cache_control:
  assumes "existsSync fs (path_join modelsDir (file_param req))"
  shows "headers (get_model modelsDir fs req) ''Cache-Control'' =
           Some (if str_includes (file_param req) ''-optimized''
                 then ''public, max-age=31536000, immutable''
                 else ''public, max-age=86400'')"
proof -
  obtain v where v: "fs (fst (selected modelsDir fs req)) = Some v"
    using selected_exists [OF assms] by blast
  then have ex: "existsSync fs (fst (selected modelsDir fs req))"
    by (simp add: existsSync_def)
  show ?thesis
    unfolding get_model_serve [OF assms v] by (rule serve_Cache_Control [OF ex])
qed

theorem cache_control_witness:
  "existsSync demo_fs (path_join ''models'' (file_param chair_req)) \<and>
   str_includes (file_param chair_req) ''-optimized'' \<and>
   headers (get_model ''models'' demo_fs chair_req) ''Cache-Control'' =
     Some ''public, max-age=31536000, immutable'' \<and>
   existsSync demo_fs (path_join ''models'' (file_param br_req)) \<and>
   \<not> str_includes (file_param br_req) ''-optimized'' \<and>
   headers (get_model ''models'' demo_fs br_req) ''Cache-Control'' = Some ''public, max-age=86400''"
proof -
  have ex: "existsSync demo_fs (path_join ''models'' (file_param chair_req))"
    "existsSync demo_fs (path_join ''models'' (file_param br_req))"
    by (simp_all add: demo_eval chair_req_def br_req_def)
  have inc: "str_includes (file_param chair_req) ''-optimized''"
    "\<not> str_includes (file_param br_req) ''-optimized''"
    by (simp_all add: chair_req_def br_req_def)
  from cache_control [OF ex(1)] cache_control [OF ex(2)] show ?thesis
    using ex inc by simp
qed

section \<open>A request without \<open>Accept-Encoding\<close>\<close>

text \<open>
  Claim C10. When the \<open>Accept-Encoding\<close> header is absent the handler answers as it does
  to an empty header: the canonical file is selected and no \<open>Content-Encoding\<close> header is
  set, also when siblings exist; without a \<open>Range\<close> header the answer is status 200 with
  the canonical file's bytes. The missing header never makes the handler fail: the status
  is 200, 206 or 416, except for a \<open>Range\<close> header whose end bound is beyond the largest
  safe integer, which \<open>createReadStream\<close> refuses whatever the encoding headers are.
\<close>

theorem absent_accept_encoding:
  assumes "fs (path_join modelsDir (file_param req)) = Some f"
    and "accept_encoding req = None"
  shows "get_model modelsDir fs req = get_model modelsDir fs (req\<lparr>accept_encoding := Some []\<rparr>) \<and>
         selected modelsDir fs req = (path_join modelsDir (file_param req), []) \<and>
         headers (get_model modelsDir fs req) ''Content-Encoding'' = None \<and>
         status (get_model modelsDir fs (req\<lparr>range_hdr := None\<rparr>)) = 200 \<and>
         body (get_model modelsDir fs (req\<lparr>range_hdr := None\<rparr>)) = content f \<and>
         (status (get_model modelsDir fs req) \<in> {200, 206, 416} \<or>
          (\<exists>r e. range_hdr req = Some r \<and> range_end (length (content f)) r = Num e \<and>
                 MAX_SAFE_INTEGER < e))"
proof -
  have ex: "existsSync fs (path_join modelsDir (file_param req))"
    using assms(1) by (simp add: existsSync_def)
  have ae: "acceptEnc_of req = []"
    using assms(2) by (simp add: acceptEnc_of_def)
  have sel: "selected modelsDir fs req = (path_join modelsDir (file_param req), [])"
    by (simp add: selected_def choose_variant_def ae)
  then have v: "fs (fst (selected modelsDir fs req)) = Some f"
    using assms(1) by simp
  then have exv: "existsSync fs (fst (selected modelsDir fs req))"
    by (simp add: existsSync_def)
  have ae': "acceptEnc_of (req\<lparr>accept_encoding := Some []\<rparr>) = []"
    by (simp add: acceptEnc_of_def)
  have same: "get_model modelsDir fs req = get_model modelsDir fs (req\<lparr>accept_encoding := Some []\<rparr>)"
    unfolding get_model_def Let_def ae ae'
    by (simp cong: prod.case_cong option.case_cong)
  have ce: "headers (get_model modelsDir fs req) ''Content-Encoding'' = None"
    using selected_Content_Encoding [OF ex] sel by simp
  have fs200: "status (get_model modelsDir fs (req\<lparr>range_hdr := None\<rparr>)) = 200"
    by (rule get_model_full_status [OF ex v])
  have fb: "body (get_model modelsDir fs (req\<lparr>range_hdr := None\<rparr>)) = content f"
    by (rule get_model_full_body [OF ex v])
  have st: "status (get_model modelsDir fs req) \<in> {200, 206, 416} \<or>
      (\<exists>r e. range_hdr req = Some r \<and> range_end (length (content f)) r = Num e \<and>
             MAX_SAFE_INTEGER < e)"
    unfolding get_model_serve [OF ex v] by (rule serve_status [OF exv fresh_headers(2)])
  show ?thesis using same sel ce fs200 fb st by blast
qed

theorem absent_accept_encoding_witness:
  "demo_fs (path_join ''models'' (file_param range_req)) =
     Some (mk_file ''0123456789'' 10) \<and>
   accept_encoding range_req = None \<and>
   existsSync demo_fs ''models/a.glb.br'' \<and> existsSync demo_fs ''models/a.glb.gz'' \<and>
   headers (get_model ''models'' demo_fs range_req) ''Content-Encoding'' = None \<and>
   status (get_model ''models'' demo_fs (range_req\<lparr>range_hdr := None\<rparr>)) = 200 \<and>
   body (get_model ''models'' demo_fs (range_req\<lparr>range_hdr := None\<rparr>)) = ''0123456789'' \<and>
   range_end 10 ''bytes=2-5'' = Num 5 \<and>
   status (get_model ''models'' demo_fs range_req) \<in> {200, 206, 416}"
proof -
  have f: "demo_fs (path_join ''models'' (file_param range_req)) =
     Some (mk_file ''0123456789'' 10)"
    by (simp add: demo_eval range_req_def)
  have ae: "accept_encoding range_req = None"
    by (simp add: range_req_def)
  have sib: "existsSync demo_fs ''models/a.glb.br''" "existsSync demo_fs ''models/a.glb.gz''"
    by (simp_all add: demo_fs_def existsSync_def)
  have d: "digits_of 2 = ''2''" "digits_of 5 = ''5''"
    by (simp_all add: digits_of.simps digit_char_def)
  have en: "range_end t ''bytes=2-5'' = Num 5" for t
    using range_end_numeric [of t 2 5] by (simp add: d)
  have rg: "range_hdr range_req = Some ''bytes=2-5''"
    by (simp add: range_req_def)
  have safe: "\<not> (\<exists>r e. range_hdr range_req = Some r \<and>
      range_end (length (content (mk_file ''0123456789'' 10))) r = Num e \<and> MAX_SAFE_INTEGER < e)"
    using en rg by (simp add: MAX_SAFE_INTEGER_def)
  note t = absent_accept_encoding [where fs = demo_fs and req = range_req, OF f ae]
  from t safe have st: "status (get_model ''models'' demo_fs range_req) \<in> {200, 206, 416}"
    by blast
  from t have c:
    "headers (get_model ''models'' demo_fs range_req) ''Content-Encoding'' = None"
    "status (get_model ''models'' demo_fs (range_req\<lparr>range_hdr := None\<rparr>)) = 200"
    "body (get_model ''models'' demo_fs (range_req\<lparr>range_hdr := None\<rparr>)) =
       content (mk_file ''0123456789'' 10)"
    by blast+
  show ?thesis
    using f ae sib en st c by simp
qed

end
